theory Spec2Isabelle
  imports Main
begin

section \<open>The command sanitisation pipeline of interwebz/api.py\<close>

text \<open>
  A Python \<open>str\<close> is modelled as a \<open>string\<close>: a list of characters whose code points
  are below 256 (the Latin-1 range), and \<open>len\<close> is \<open>length\<close>. The built-ins the source
  calls on strings (\<open>lower\<close>, \<open>isprintable\<close>, \<open>int\<close>, \<open>chr\<close>, \<open>ord\<close>) are modelled on
  that range.
\<close>

subsection \<open>Characters and built-ins\<close>

definition bslash :: char where
  "bslash = CHR 0x5C"

definition dquote :: char where
  "dquote = CHR 0x22"

definition squote :: char where
  "squote = CHR 0x27"

definition newline :: char where
  "newline = CHR 0x0A"

text \<open>\<open>ord(c)\<close>.\<close>

definition ord :: "char \<Rightarrow> nat" where
  "ord c = of_char c"

text \<open>\<open>str.lower()\<close>, character by character: A-Z and the upper-case Latin-1 letters
  (0xC0-0xDE without the multiplication sign 0xD7) move up by 32.\<close>

definition lower_char :: "char \<Rightarrow> char" where
  "lower_char c =
     (let n = ord c in
      if (65 \<le> n \<and> n \<le> 90) \<or> (192 \<le> n \<and> n \<le> 222 \<and> n \<noteq> 215)
      then char_of (n + 32) else c)"

definition lower :: "string \<Rightarrow> string" where
  "lower s = map lower_char s"

text \<open>\<open>str.isprintable()\<close> on one character: the controls 0x00-0x1F and 0x7F-0x9F, the
  no-break space 0xA0 and the soft hyphen 0xAD are not printable.\<close>

definition isprintable :: "char \<Rightarrow> bool" where
  "isprintable c =
     (let n = ord c in (32 \<le> n \<and> n \<le> 126) \<or> (161 \<le> n \<and> n \<noteq> 173))"

text \<open>The format \<open>{ord(c):02x}\<close>: two lower-case hexadecimal digits for a code point
  below 256.\<close>

definition hex_digit :: "nat \<Rightarrow> char" where
  "hex_digit d = ''0123456789abcdef'' ! (d mod 16)"

definition format_02x :: "nat \<Rightarrow> string" where
  "format_02x n = [hex_digit (n div 16), hex_digit (n mod 16)]"

text \<open>The format of a non-negative integer in an f-string (\<open>{max_batch_size}\<close>).\<close>

fun str_nat :: "nat \<Rightarrow> string" where
  "str_nat n =
     (if n < 10 then [''0123456789'' ! n]
      else str_nat (n div 10) @ [''0123456789'' ! (n mod 10)])"

text \<open>A slice \<open>s[:stop]\<close>: a negative stop counts from the end.\<close>

definition slice_to :: "'a list \<Rightarrow> int \<Rightarrow> 'a list" where
  "slice_to s stop =
     (if 0 \<le> stop then take (nat stop) s else take (nat (int (length s) + stop)) s)"

text \<open>A slice \<open>s[start:stop]\<close> with non-negative bounds.\<close>

definition slice :: "'a list \<Rightarrow> nat \<Rightarrow> nat \<Rightarrow> 'a list" where
  "slice s start stop = drop start (take stop s)"

text \<open>
  \<open>int(s, base)\<close> for base 10 and 16; \<open>None\<close> is the \<open>ValueError\<close>. The interpreter
  skips leading white space, reads an optional sign, for base 16 an optional \<open>0x\<close>
  prefix (and one underscore after it), then a non-empty run of digits in which single
  underscores may stand between digits, then white space up to the end of the string.
  (The interpreter's limit of 4300 decimal digits is left out: an argument of the
  pipeline has at most 256 characters.)
\<close>

definition int_space :: "char \<Rightarrow> bool" where
  "int_space c = (ord c \<in> {9, 10, 11, 12, 13, 32, 133, 160})"

definition digit_value :: "char \<Rightarrow> nat option" where
  "digit_value c =
     (let n = ord c in
      if 48 \<le> n \<and> n \<le> 57 then Some (n - 48)
      else if 97 \<le> n \<and> n \<le> 122 then Some (n - 87)
      else if 65 \<le> n \<and> n \<le> 90 then Some (n - 55)
      else None)"

definition is_digit :: "nat \<Rightarrow> char \<Rightarrow> bool" where
  "is_digit base c = (case digit_value c of None \<Rightarrow> False | Some d \<Rightarrow> d < base)"

fun double_underscore :: "string \<Rightarrow> bool" where
  "double_underscore (a # b # cs) =
     ((a = CHR ''_'' \<and> b = CHR ''_'') \<or> double_underscore (b # cs))"
| "double_underscore cs = False"

definition digits_value :: "nat \<Rightarrow> string \<Rightarrow> nat" where
  "digits_value base body =
     foldl (\<lambda>acc c. acc * base + (case digit_value c of None \<Rightarrow> 0 | Some d \<Rightarrow> d)) 0
       (filter (\<lambda>c. c \<noteq> CHR ''_'') body)"

definition py_int :: "nat \<Rightarrow> string \<Rightarrow> int option" where
  "py_int base s =
     (let s1 = dropWhile int_space s;
          neg = (s1 \<noteq> [] \<and> hd s1 = CHR ''-'');
          s2 = (if s1 \<noteq> [] \<and> (hd s1 = CHR ''+'' \<or> hd s1 = CHR ''-'') then tl s1 else s1);
          s3 = (if base = 16 \<and> 2 \<le> length s2 \<and> hd s2 = CHR ''0''
                   \<and> (s2 ! 1 = CHR ''x'' \<or> s2 ! 1 = CHR ''X'')
                then (let r = drop 2 s2 in if r \<noteq> [] \<and> hd r = CHR ''_'' then tl r else r)
                else s2);
          body = takeWhile (\<lambda>c. is_digit base c \<or> c = CHR ''_'') s3;
          rest = dropWhile (\<lambda>c. is_digit base c \<or> c = CHR ''_'') s3
      in if body = [] \<or> hd body = CHR ''_'' \<or> last body = CHR ''_''
            \<or> double_underscore body \<or> \<not> list_all int_space rest
         then None
         else Some (if neg then - int (digits_value base body)
                    else int (digits_value base body)))"

text \<open>\<open>chr(n)\<close>: a \<open>ValueError\<close> for a negative number. The source calls it on the value
  of a two-character literal, which is at most 255.\<close>

definition py_chr :: "int \<Rightarrow> char option" where
  "py_chr n = (if 0 \<le> n \<and> n < 256 then Some (char_of (nat n)) else None)"

subsection \<open>Limits and the escape table\<close>

definition max_batch_size :: nat where
  "max_batch_size = 20"

definition max_arguments :: nat where
  "max_arguments = 25"

definition max_argument_size :: nat where
  "max_argument_size = 256"

text \<open>The dictionary \<open>escapes\<close>, in its insertion order, and its inverse \<open>unescapes\<close>.\<close>

definition escapes :: "(char \<times> char) list" where
  "escapes = [(CHR ''n'', CHR 0x0A), (CHR ''r'', CHR 0x0D), (CHR ''t'', CHR 0x09),
              (CHR ''b'', CHR 0x08), (CHR ''a'', CHR 0x07)]"

definition unescapes :: "(char \<times> char) list" where
  "unescapes = map (\<lambda>(k, v). (v, k)) escapes"

text \<open>\<open>d.get(key, default)\<close>.\<close>

definition dict_get :: "('k \<times> 'v) list \<Rightarrow> 'k \<Rightarrow> 'v \<Rightarrow> 'v" where
  "dict_get d k dflt = (case map_of d k of None \<Rightarrow> dflt | Some v \<Rightarrow> v)"

subsection \<open>Replies\<close>

text \<open>A store response: a string, a list, a dictionary, or any other value (a number,
  \<open>None\<close>), which the pipeline hands on untouched.\<close>

datatype 'a resp =
    RStr string
  | RList "'a resp list"
  | RDict "(string \<times> 'a resp) list"
  | ROther 'a

record 'a reply_t =
  rvalue :: "'a resp"
  rerror :: bool

definition reply :: "'a resp \<Rightarrow> bool \<Rightarrow> 'a reply_t" where
  "reply val err = \<lparr>rvalue = val, rerror = err\<rparr>"

definition deny :: "string \<Rightarrow> 'a reply_t" where
  "deny message = reply (RStr (message @ '' allowed on the interwebz'')) True"

definition signature :: string where
  "signature = ''... (full value snipped by the interwebz)''"

definition snip :: "string \<Rightarrow> int \<Rightarrow> string" where
  "snip val init =
     slice_to val (int max_argument_size - init - int (length signature)) @ signature"

subsection \<open>The argument decoder\<close>

text \<open>
  The \<open>while\<close> loop of \<open>unescape_argument\<close> over the index \<open>i\<close> and the list \<open>result\<close>.
  The \<open>try\<close> block holds both \<open>int(value[i+2:i+4], 16)\<close> and \<open>chr(hex_val)\<close>: a
  \<open>ValueError\<close> of either appends the backslash itself and moves on by one.
\<close>

function unescape_loop :: "string \<Rightarrow> nat \<Rightarrow> string \<Rightarrow> string" where
  "unescape_loop val i result =
     (if i < length val then
        (if val ! i = bslash then
           (if i + 1 \<ge> length val then val
            else if val ! (i + 1) = CHR ''x'' \<and> i + 3 < length val then
              (case Option.bind (py_int 16 (slice val (i + 2) (i + 4))) py_chr of
                 Some c \<Rightarrow> unescape_loop val (i + 4) (result @ [c])
               | None \<Rightarrow> unescape_loop val (i + 1) (result @ [val ! i]))
            else unescape_loop val (i + 2)
                   (result @ [dict_get escapes (val ! (i + 1)) (val ! (i + 1))]))
         else unescape_loop val (i + 1) (result @ [val ! i]))
      else result)"
  by pat_completeness auto
termination
  by (relation "measure (\<lambda>(val, i, result). length val - i)") auto

text \<open>\<open>value.replace("\\'", "'")\<close>: every occurrence, left to right, without overlap.\<close>

fun replace_escaped_squote :: "string \<Rightarrow> string" where
  "replace_escaped_squote (a # b # cs) =
     (if a = bslash \<and> b = squote then squote # replace_escaped_squote cs
      else a # replace_escaped_squote (b # cs))"
| "replace_escaped_squote cs = cs"

definition unescape_argument :: "string \<Rightarrow> string" where
  "unescape_argument argument =
     (if length argument < 2 \<or> \<not> (hd argument = dquote \<or> hd argument = squote)
      then argument
      else (let val = butlast (tl argument) in
            if hd argument = dquote then unescape_loop val 0 []
            else replace_escaped_squote val))"

text \<open>The body of the loop over the arguments in \<open>execute_commands\<close>: decode, then cap
  the length.\<close>

definition sanitize_argument :: "string \<Rightarrow> string" where
  "sanitize_argument a =
     (let u = unescape_argument a in
      if length u > max_argument_size then snip u 0 else u)"

subsection \<open>The response escaper\<close>

definition escape_char :: "char \<Rightarrow> string" where
  "escape_char c =
     (if c = bslash then [bslash, bslash]
      else if c = dquote then [bslash, dquote]
      else if \<not> isprintable c then [bslash, CHR ''x''] @ format_02x (ord c)
      else [dict_get unescapes c c])"

definition escape_str :: "string \<Rightarrow> string" where
  "escape_str s =
     (let escaped = concat (map escape_char s) in
      if escaped \<noteq> s then [dquote] @ escaped @ [dquote] else escaped)"

fun escape_strings :: "'a resp \<Rightarrow> 'a resp" where
  "escape_strings (RStr s) = RStr (escape_str s)"
| "escape_strings (RList xs) = RList (map escape_strings xs)"
| "escape_strings (RDict kvs) = RDict (map (map_prod id escape_strings) kvs)"
| "escape_strings (ROther x) = ROther x"

subsection \<open>The tokenizer\<close>

text \<open>
  \<open>execute_commands\<close> configures a lexer \<open>lex\<close> (\<open>posix=True\<close>, \<open>whitespace_split\<close>, no
  commenters) and then reads the tokens from another one, \<open>shlex(command, True)\<close>. The
  second positional parameter of \<open>shlex\<close> is \<open>infile\<close>, so that lexer runs with the
  defaults of the standard library: \<open>posix=False\<close>, \<open>whitespace_split=False\<close>,
  \<open>commenters='#'\<close>, no punctuation characters. The definitions below follow
  \<open>shlex.read_token\<close> and \<open>shlex.get_token\<close> of the standard library under those
  settings.
\<close>

definition commenters :: string where
  "commenters = ''#''"

definition wordchars :: string where
  "wordchars = ''abcdfeghijklmnopqrstuvwxyzABCDEFGHIJKLMNOPQRSTUVWXYZ0123456789_''"

definition whitespace :: string where
  "whitespace = [CHR 0x20, CHR 0x09, CHR 0x0D, CHR 0x0A]"

definition quotes :: string where
  "quotes = [squote, dquote]"

text \<open>What is left of the stream after \<open>instream.readline()\<close>.\<close>

fun readline_rest :: "string \<Rightarrow> string" where
  "readline_rest [] = []"
| "readline_rest (c # cs) = (if c = newline then cs else readline_rest cs)"

text \<open>The lexer's \<open>state\<close> while characters remain: \<open>' '\<close>, \<open>'a'\<close>, or the open quote.
  (The state \<open>None\<close>, past the end of the input, is the empty stream below.)\<close>

datatype lex_state = InWhitespace | InWord | InQuote char

text \<open>
  \<open>list(iter(get_token, ''))\<close>: a token joins the list and the iteration goes on, unless
  the token is the empty string, which ends it. A \<open>ValueError\<close> raised later discards
  the list.
\<close>

definition emit :: "string \<Rightarrow> string + string list \<Rightarrow> string + string list" where
  "emit token later =
     (if token = [] then Inr []
      else (case later of Inl e \<Rightarrow> Inl e | Inr ts \<Rightarrow> Inr (token # ts)))"

text \<open>
  \<open>read_tokens state token stream\<close>: the tokens that the repeated \<open>get_token\<close> returns
  when the lexer is in \<open>state\<close>, has gathered \<open>token\<close> and has \<open>stream\<close> left to read.
  A character that ends a word without being white space goes to \<open>pushback\<close> and is the
  next token by itself.
\<close>

function read_tokens :: "lex_state \<Rightarrow> string \<Rightarrow> string \<Rightarrow> string + string list" where
  "read_tokens InWhitespace token [] = emit token (Inr [])"
| "read_tokens InWhitespace token (c # cs) =
     (if c \<in> set whitespace then
        (if token \<noteq> [] then emit token (read_tokens InWhitespace [] cs)
         else read_tokens InWhitespace token cs)
      else if c \<in> set commenters then read_tokens InWhitespace token (readline_rest cs)
      else if c \<in> set wordchars then read_tokens InWord [c] cs
      else if c \<in> set quotes then read_tokens (InQuote c) [c] cs
      else emit [c] (read_tokens InWhitespace [] cs))"
| "read_tokens (InQuote q) token [] = Inl ''No closing quotation''"
| "read_tokens (InQuote q) token (c # cs) =
     (if c = q then emit (token @ [c]) (read_tokens InWhitespace [] cs)
      else read_tokens (InQuote q) (token @ [c]) cs)"
| "read_tokens InWord token [] = emit token (Inr [])"
| "read_tokens InWord token (c # cs) =
     (if c \<in> set whitespace then
        (if token \<noteq> [] then emit token (read_tokens InWhitespace [] cs)
         else read_tokens InWhitespace token cs)
      else if c \<in> set commenters then read_tokens InWord token (readline_rest cs)
      else if c \<in> set wordchars \<or> c \<in> set quotes then read_tokens InWord (token @ [c]) cs
      else (if token \<noteq> [] then emit token (emit [c] (read_tokens InWhitespace [] cs))
            else emit [c] (read_tokens InWhitespace [] cs)))"
  by pat_completeness auto
termination
proof (relation "measure (\<lambda>(st, token, cs). length cs)")
  have rl: "length (readline_rest cs) \<le> length cs" for cs
    by (induction cs) auto
  fix token :: string and c :: char and cs :: string
  show "((InWhitespace, token, readline_rest cs), (InWhitespace, token, c # cs))
          \<in> measure (\<lambda>(st, token, cs). length cs)"
    using rl [of cs] by simp
  show "((InWord, token, readline_rest cs), (InWord, token, c # cs))
          \<in> measure (\<lambda>(st, token, cs). length cs)"
    using rl [of cs] by simp
qed auto

text \<open>The token list of one command line, or the message of the \<open>ValueError\<close>.\<close>

definition get_tokens :: "string \<Rightarrow> string + string list" where
  "get_tokens command = read_tokens InWhitespace [] command"

subsection \<open>The command policy\<close>

datatype exn = IndexError

text \<open>
  \<open>sanitize_exceptions\<close> returns the rejection message or \<open>None\<close>, and may assign to
  \<open>argv[3]\<close>: the model returns the message together with the argument vector as the
  call leaves it. \<open>argv[0]\<close> on an empty list is the \<open>IndexError\<close>; \<open>argv[2]\<close> and
  \<open>argv[3]\<close> are read under \<open>argc == 4\<close>.
\<close>

definition sanitize_exceptions :: "string list \<Rightarrow> exn + (string option \<times> string list)" where
  "sanitize_exceptions argv =
     (case argv of
        [] \<Rightarrow> Inl IndexError
      | argv0 # _ \<Rightarrow>
          (let cmd_name = lower argv0; argc = length argv in
           if cmd_name = ''setbit'' \<and> argc = 4 then
             (case py_int 10 (argv ! 2) of
                Some offset \<Rightarrow>
                  (let max_offset = max_argument_size * 8 in
                   if offset > int max_offset
                   then Inr (Some (''offset too big - only up to '' @ str_nat max_offset
                                     @ '' bits allowed''), argv)
                   else Inr (None, argv))
              | None \<Rightarrow> Inr (None, argv))
           else if cmd_name = ''setrange'' \<and> argc = 4 then
             (case py_int 10 (argv ! 2) of
                Some offset \<Rightarrow>
                  (if offset > int max_argument_size
                   then Inr (Some (''offset too big - only up to '' @ str_nat max_argument_size
                                     @ '' bytes allowed''), argv)
                   else Inr (None,
                          argv[3 := slice_to (argv ! 3) (int max_argument_size - offset + 1)]))
              | None \<Rightarrow> Inr (None, argv[3 := []]))
           else if cmd_name \<in> set [''quit'', ''hello'', ''reset'', ''auth'']
           then Inr (Some (''the '' @ [squote] @ argv0 @ [squote] @ '' command is not''), argv)
           else Inr (None, argv)))"

subsection \<open>Batch validation\<close>

text \<open>The request body is any JSON value: a list of command lines, or something else.\<close>

datatype payload = NotAList | CommandList "string list"

datatype 'a verdict = BadRequest string nat | Denied "'a reply_t"

definition verify_commands :: "payload \<Rightarrow> 'a verdict option" where
  "verify_commands commands =
     (case commands of
        NotAList \<Rightarrow> Some (BadRequest ''It posts commands as a list'' 400)
      | CommandList cs \<Rightarrow>
          (if length cs > max_batch_size
           then Some (Denied (deny (''batch is too large. Only up to '' @ str_nat max_batch_size
                                      @ '' commands'')))
           else None))"

subsection \<open>The batch orchestrator\<close>

text \<open>
  The store client: \<open>client.execute_namespaced(session, argv)\<close> changes the store and
  returns a response, or raises an exception, of which the pipeline keeps \<open>str(e)\<close>.
\<close>

type_synonym ('s, 'sess, 'a) client = "'s \<Rightarrow> 'sess \<Rightarrow> string list \<Rightarrow> 's \<times> (string + 'a resp)"

text \<open>The test that exempts a response from escaping.\<close>

definition info_command :: "nat \<Rightarrow> string list \<Rightarrow> bool" where
  "info_command argc argv =
     (lower (argv ! 0) = ''info''
      \<or> (argc > 1 \<and> lower (argv ! 0) = ''client'' \<and> lower (argv ! 1) = ''info''))"

text \<open>
  The body of the \<open>for command in commands\<close> loop, on the reply list \<open>rep\<close> and the store:
  each \<open>continue\<close> is a branch that returns. Every token is a \<open>str\<close>, so the
  \<open>stronly\<close> test never fails and has no branch here.
\<close>

definition execute_command ::
  "('s, 'sess, 'a) client \<Rightarrow> 'sess \<Rightarrow> 'a reply_t list \<times> 's \<Rightarrow> string
     \<Rightarrow> exn + ('a reply_t list \<times> 's)" where
  "execute_command client session st command =
     (case st of (rep, s) \<Rightarrow>
        (case get_tokens command of
           Inl e \<Rightarrow> Inr (rep @ [reply (RStr e) True], s)
         | Inr tokens \<Rightarrow>
             (let argc = length tokens in
              if argc = 0 then Inr (rep, s)
              else if argc > max_arguments then
                Inr (rep @ [deny (''too many arguments - only up to '' @ str_nat max_arguments)], s)
              else
                (case sanitize_exceptions (map sanitize_argument tokens) of
                   Inl x \<Rightarrow> Inl x
                 | Inr (Some err, argv) \<Rightarrow> Inr (rep @ [deny err], s)
                 | Inr (None, argv) \<Rightarrow>
                     (case client s session argv of
                        (s', Inl e) \<Rightarrow> Inr (rep @ [reply (RStr e) True], s')
                      | (s', Inr response) \<Rightarrow>
                          Inr (rep @ [reply (if info_command argc argv then response
                                             else escape_strings response) False], s'))))))"

text \<open>The loop: an exception that no handler catches ends it.\<close>

fun execute_commands ::
  "('s, 'sess, 'a) client \<Rightarrow> 'sess \<Rightarrow> 'a reply_t list \<times> 's \<Rightarrow> string list
     \<Rightarrow> exn + ('a reply_t list \<times> 's)" where
  "execute_commands client session st [] = Inr st"
| "execute_commands client session st (command # commands) =
     (case execute_command client session st command of
        Inl x \<Rightarrow> Inl x
      | Inr st' \<Rightarrow> execute_commands client session st' commands)"

text \<open>A client that also keeps the list of the argument vectors it was called with.\<close>

definition recording ::
  "('s, 'sess, 'a) client \<Rightarrow> ('s \<times> string list list, 'sess, 'a) client" where
  "recording client = (\<lambda>(s, calls) session argv.
     (case client s session argv of (s', r) \<Rightarrow> ((s', calls @ [argv]), r)))"

subsection \<open>The request handler\<close>

text \<open>
  Modelled from the spec: the request handler that receives the batch, calls
  \<open>verify_commands\<close> and then \<open>execute_commands\<close> is not part of \<open>api.py\<close>. The
  specification says of it: "the incoming batch must be a sequence of strings of length
  at most 20; otherwise the whole request is rejected before any command runs", and "the
  caller receives a single denial message, not a per-command reply list".
\<close>

datatype 'a outcome = Rejected "'a verdict" | Replies "'a reply_t list"

definition handle_batch ::
  "('s, 'sess, 'a) client \<Rightarrow> 'sess \<Rightarrow> 's \<Rightarrow> payload \<Rightarrow> exn + ('a outcome \<times> 's)" where
  "handle_batch client session s commands =
     (case verify_commands commands of
        Some v \<Rightarrow> Inr (Rejected v, s)
      | None \<Rightarrow>
          (case commands of
             NotAList \<Rightarrow> Inr (Replies [], s)
           | CommandList cs \<Rightarrow>
               (case execute_commands client session ([], s) cs of
                  Inl x \<Rightarrow> Inl x
                | Inr (rep, s') \<Rightarrow> Inr (Replies rep, s'))))"

subsection \<open>The decoder of a double-quoted token, clause by clause\<close>

text \<open>
  The decoding of the interior of a double-quoted token as the specification words it,
  one clause per kind of character; \<open>None\<close> stands for "a trailing unmatched backslash:
  the interior is returned as it is". It is compared below with the loop of the source.
  Read from the left:
  \<^item> a character other than a backslash stands for itself;
  \<^item> a backslash at the very end gives \<open>None\<close>;
  \<^item> a backslash, an \<open>x\<close> and two more characters that \<open>int(_, 16)\<close> and \<open>chr\<close> accept
    (two hexadecimal digits always are) stand for the character of that value;
  \<^item> a backslash, an \<open>x\<close> and two more characters that they refuse: the backslash stands
    for itself, and the decoding goes on at the \<open>x\<close>;
  \<^item> a backslash and any other character (also an \<open>x\<close> with fewer than two characters
    after it) stand for the entry of the escape table, or for that character when the
    table has none.
\<close>

fun decode_double_quoted :: "string \<Rightarrow> string option" where
  "decode_double_quoted [] = Some []"
| "decode_double_quoted (c # cs) =
     (if c \<noteq> bslash then map_option ((#) c) (decode_double_quoted cs)
      else (case cs of
              [] \<Rightarrow> None
            | d # ds \<Rightarrow>
                (if d = CHR ''x'' \<and> 2 \<le> length ds then
                   (case Option.bind (py_int 16 (take 2 ds)) py_chr of
                      Some b \<Rightarrow> map_option ((#) b) (decode_double_quoted (drop 2 ds))
                    | None \<Rightarrow> map_option ((#) bslash) (decode_double_quoted cs))
                 else map_option ((#) (dict_get escapes d d)) (decode_double_quoted ds))))"

text \<open>The value of a hexadecimal digit, and the test for one.\<close>

definition is_hex :: "char \<Rightarrow> bool" where
  "is_hex c = (c \<in> set ''0123456789abcdefABCDEF'')"

definition hex_value :: "char \<Rightarrow> nat" where
  "hex_value c = (case digit_value c of None \<Rightarrow> 0 | Some d \<Rightarrow> d)"

section \<open>Auxiliary facts\<close>

declare str_nat.simps [simp del]

declare unescape_loop.simps [simp del]

lemma str_nat_limits:
  "str_nat 20 = ''20''" "str_nat 25 = ''25''" "str_nat 256 = ''256''"
  "str_nat 2048 = ''2048''"
  by code_simp+

lemma sanitize_exceptions_denied:
  assumes "argv \<noteq> []"
    and "lower (hd argv) \<in> set [''quit'', ''hello'', ''reset'', ''auth'']"
  shows "sanitize_exceptions argv =
           Inr (Some (''the '' @ [squote] @ hd argv @ [squote] @ '' command is not''), argv)"
proof -
  obtain a rest where argv: "argv = a # rest"
    using assms(1) by (cases argv) auto
  have ne1: "lower a \<noteq> ''setbit''" and ne2: "lower a \<noteq> ''setrange''"
    using assms(2) by (auto simp: argv)
  show ?thesis
    using assms(2) by (simp add: sanitize_exceptions_def argv ne1 ne2)
qed

lemma sanitize_exceptions_setrange:
  assumes "length argv = 4" and "lower (argv ! 0) = ''setrange''"
  shows "(\<forall>offset. py_int 10 (argv ! 2) = Some offset \<and> offset > 256 \<longrightarrow>
            sanitize_exceptions argv =
              Inr (Some ''offset too big - only up to 256 bytes allowed'', argv))
       \<and> (\<forall>offset. py_int 10 (argv ! 2) = Some offset \<and> offset \<le> 256 \<longrightarrow>
            sanitize_exceptions argv =
              Inr (None, argv[3 := take (nat (257 - offset)) (argv ! 3)]))
       \<and> (py_int 10 (argv ! 2) = None \<longrightarrow>
            sanitize_exceptions argv = Inr (None, argv[3 := []]))"
proof -
  obtain a rest where argv: "argv = a # rest"
    using assms(1) by (cases argv) auto
  have a: "lower a = ''setrange''"
    using assms(2) by (simp add: argv)
  have len: "length (a # rest) = 4"
    using assms(1) by (simp add: argv)
  have nb: "''setrange'' \<noteq> ''setbit''" by simp
  show ?thesis
    unfolding argv sanitize_exceptions_def
    using len
    by (simp add: a str_nat_limits slice_to_def max_argument_size_def
          Let_def del: length_Cons list_update.simps nth_Cons_numeral)
qed


lemma sanitize_exceptions_total:
  assumes "argv \<noteq> []"
  shows "\<exists>err argv'. sanitize_exceptions argv = Inr (err, argv') \<and> length argv' = length argv"
proof -
  obtain a rest where argv: "argv = a # rest"
    using assms by (cases argv) auto
  show ?thesis
    unfolding argv sanitize_exceptions_def
    by (simp add: Let_def split: option.split del: list_update.simps nth_Cons_numeral)
qed

lemma execute_command_parse_error:
  assumes "get_tokens command = Inl msg"
  shows "execute_command client session (rep, s) command = Inr (rep @ [reply (RStr msg) True], s)"
  using assms by (simp add: execute_command_def)

lemma execute_command_blank:
  assumes "get_tokens command = Inr []"
  shows "execute_command client session (rep, s) command = Inr (rep, s)"
  using assms by (simp add: execute_command_def)

lemma execute_command_too_many:
  assumes "get_tokens command = Inr tokens" and "length tokens > max_arguments"
  shows "execute_command client session (rep, s) command =
           Inr (rep @ [deny ''too many arguments - only up to 25''], s)"
proof -
  have "tokens \<noteq> []" using assms(2) by auto
  then show ?thesis
    using assms by (simp add: execute_command_def Let_def str_nat_limits max_arguments_def)
qed

lemma execute_command_policy:
  assumes "get_tokens command = Inr tokens" and "tokens \<noteq> []"
    and "length tokens \<le> max_arguments"
    and "sanitize_exceptions (map sanitize_argument tokens) = Inr (Some err, argv)"
  shows "execute_command client session (rep, s) command = Inr (rep @ [deny err], s)"
  using assms by (simp add: execute_command_def Let_def)

lemma execute_command_dispatch:
  assumes "get_tokens command = Inr tokens" and "tokens \<noteq> []"
    and "length tokens \<le> max_arguments"
    and "sanitize_exceptions (map sanitize_argument tokens) = Inr (None, argv)"
    and "client s session argv = (s', r)"
  shows "execute_command client session (rep, s) command =
           Inr (rep @ [case r of
                         Inl e \<Rightarrow> reply (RStr e) True
                       | Inr response \<Rightarrow>
                           reply (if info_command (length tokens) argv then response
                                  else escape_strings response) False], s')"
  using assms by (simp add: execute_command_def Let_def split: sum.split)

lemma execute_command_total:
  "\<exists>r s'. execute_command client session (rep, s) command = Inr (rep @ r, s')
           \<and> length r = (if get_tokens command = Inr [] then 0 else 1)"
proof (cases "get_tokens command")
  case (Inl msg)
  then show ?thesis
    using execute_command_parse_error [OF Inl, of client session rep s] by simp
next
  case (Inr tokens)
  show ?thesis
  proof (cases "tokens = []")
    case True
    then show ?thesis
      using Inr execute_command_blank [of command client session rep s] by simp
  next
    case ne: False
    show ?thesis
    proof (cases "length tokens > max_arguments")
      case True
      then show ?thesis
        using Inr ne execute_command_too_many [OF Inr True, of client session rep s] by simp
    next
      case False
      then have le: "length tokens \<le> max_arguments" by simp
      from ne have "map sanitize_argument tokens \<noteq> []" by simp
      from sanitize_exceptions_total [OF this]
      obtain err argv where san:
        "sanitize_exceptions (map sanitize_argument tokens) = Inr (err, argv)"
        by blast
      show ?thesis
      proof (cases err)
        case None
        obtain s' r where cl: "client s session argv = (s', r)"
          by (cases "client s session argv") auto
        show ?thesis
          using Inr ne
            execute_command_dispatch [where client = client and s = s and session = session
              and rep = rep, OF Inr ne le san [unfolded None] cl]
          by simp
      next
        case (Some e)
        show ?thesis
          using Inr ne execute_command_policy [OF Inr ne le san [unfolded Some], of client session rep s]
          by simp
      qed
    qed
  qed
qed

lemma execute_commands_total:
  "\<exists>r s'. execute_commands client session (rep, s) commands = Inr (rep @ r, s')
           \<and> length r = length (filter (\<lambda>c. get_tokens c \<noteq> Inr []) commands)"
proof (induction commands arbitrary: rep s)
  case Nil
  then show ?case by simp
next
  case (Cons command commands)
  obtain r1 s1 where step:
    "execute_command client session (rep, s) command = Inr (rep @ r1, s1)"
    "length r1 = (if get_tokens command = Inr [] then 0 else 1)"
    using execute_command_total [of client session rep s command] by blast
  obtain r2 s2 where rest:
    "execute_commands client session (rep @ r1, s1) commands = Inr ((rep @ r1) @ r2, s2)"
    "length r2 = length (filter (\<lambda>c. get_tokens c \<noteq> Inr []) commands)"
    using Cons.IH [of "rep @ r1" s1] by blast
  have "execute_commands client session (rep, s) (command # commands) = Inr (rep @ (r1 @ r2), s2)"
    using step(1) rest(1) by simp
  moreover have "length (r1 @ r2) = length (filter (\<lambda>c. get_tokens c \<noteq> Inr []) (command # commands))"
    using step(2) rest(2) by simp
  ultimately show ?case by blast
qed

lemma execute_commands_append:
  "execute_commands client session st (xs @ ys) =
     (case execute_commands client session st xs of
        Inl x \<Rightarrow> Inl x
      | Inr st' \<Rightarrow> execute_commands client session st' ys)"
  by (induction xs arbitrary: st) (auto split: sum.split)

lemma drop_Cons_nth: "i < length xs \<Longrightarrow> drop i xs = xs ! i # drop (Suc i) xs"
  by (simp add: Cons_nth_drop_Suc)

lemma unescape_loop_decode:
  "i \<le> length val \<Longrightarrow>
   unescape_loop val i result =
     (case decode_double_quoted (drop i val) of None \<Rightarrow> val | Some r \<Rightarrow> result @ r)"
proof (induction val i result rule: unescape_loop.induct)
  case (1 val i result)
  show ?case
  proof (cases "i < length val")
    case False
    have "unescape_loop val i result = result"
      using False by (subst unescape_loop.simps) simp
    with False "1.prems" show ?thesis
      by simp
  next
    case lt: True
    note d0 = drop_Cons_nth [OF lt]
    show ?thesis
    proof (cases "val ! i = bslash")
      case False
      have L: "unescape_loop val i result = unescape_loop val (i + 1) (result @ [val ! i])"
        using lt False by (subst unescape_loop.simps) simp
      have R: "decode_double_quoted (drop i val) =
                 map_option ((#) (val ! i)) (decode_double_quoted (drop (i + 1) val))"
        using False by (simp add: d0)
      have "i + 1 \<le> length val" using lt by simp
      from "1.IH"(4) [OF lt False this] show ?thesis
        unfolding L R by (cases "decode_double_quoted (drop (i + 1) val)") simp_all
    next
      case bs: True
      show ?thesis
      proof (cases "i + 1 \<ge> length val")
        case True
        then have e: "drop (Suc i) val = []" by simp
        have L: "unescape_loop val i result = val"
          using lt bs True by (subst unescape_loop.simps) simp
        have R: "decode_double_quoted (drop i val) = None"
          using bs by (simp add: d0 e)
        show ?thesis unfolding L R by simp
      next
        case nl: False
        then have lt1: "Suc i < length val" by simp
        note d1 = drop_Cons_nth [OF lt1]
        show ?thesis
        proof (cases "val ! (i + 1) = CHR ''x'' \<and> i + 3 < length val")
          case False
          define g where "g = dict_get escapes (val ! (i + 1)) (val ! (i + 1))"
          have nx: "\<not> (val ! Suc i = CHR ''x'' \<and> 2 \<le> length (drop (Suc (Suc i)) val))"
            using False by auto
          have L: "unescape_loop val i result = unescape_loop val (i + 2) (result @ [g])"
            using lt bs nl False by (subst unescape_loop.simps) (auto simp: g_def)
          have R: "decode_double_quoted (drop i val) =
                     map_option ((#) g) (decode_double_quoted (drop (i + 2) val))"
            using bs nx by (auto simp: d0 d1 g_def)
          have "i + 2 \<le> length val" using lt1 by simp
          from "1.IH"(3) [OF lt bs nl False this] show ?thesis
            unfolding L R g_def [symmetric]
            by (cases "decode_double_quoted (drop (i + 2) val)") simp_all
        next
          case x: True
          then have len2: "val ! Suc i = CHR ''x'' \<and> 2 \<le> length (drop (Suc (Suc i)) val)"
            by auto
          have sl: "slice val (i + 2) (i + 4) = take 2 (drop (Suc (Suc i)) val)"
            by (simp add: slice_def drop_take)
          have i4: "i + 4 = Suc (Suc (Suc (Suc i)))" by simp
          show ?thesis
          proof (cases "Option.bind (py_int 16 (slice val (i + 2) (i + 4))) py_chr")
            case None
            have L: "unescape_loop val i result = unescape_loop val (i + 1) (result @ [val ! i])"
              using lt bs nl x None by (subst unescape_loop.simps) simp
            have R: "decode_double_quoted (drop i val) =
                       map_option ((#) bslash) (decode_double_quoted (drop (i + 1) val))"
              using bs len2 None [unfolded sl] by (simp add: d0 d1)
            have "i + 1 \<le> length val" using lt by simp
            from "1.IH"(1) [OF lt bs nl x None this] show ?thesis
              unfolding L R bs by (cases "decode_double_quoted (drop (i + 1) val)") simp_all
          next
            case (Some b)
            have L: "unescape_loop val i result = unescape_loop val (i + 4) (result @ [b])"
              using lt bs nl x Some by (subst unescape_loop.simps) simp
            have R: "decode_double_quoted (drop i val) =
                       map_option ((#) b) (decode_double_quoted (drop (i + 4) val))"
              using bs len2 Some [unfolded sl] by (simp add: d0 d1 i4)
            have "i + 4 \<le> length val" using x by simp
            from "1.IH"(2) [OF lt bs nl x Some this] show ?thesis
              unfolding L R by (cases "decode_double_quoted (drop (i + 4) val)") simp_all
          qed
        qed
      qed
    qed
  qed
qed

lemma unescape_argument_decode:
  "unescape_argument (dquote # val @ [e]) =
     (case decode_double_quoted val of None \<Rightarrow> val | Some r \<Rightarrow> r)"
  using unescape_loop_decode [of 0 val "[]"]
  by (simp add: unescape_argument_def Let_def butlast_append split: option.split)

lemma read_tokens_blank:
  "set cs \<subseteq> set whitespace \<Longrightarrow> read_tokens InWhitespace [] cs = Inr []"
  by (induction cs) (auto simp: emit_def)

lemma recording_apply:
  "recording client (s, calls) session argv =
     ((fst (client s session argv), calls @ [argv]), snd (client s session argv))"
  by (simp add: recording_def split: prod.split)

lemma verify_commands_too_large:
  assumes "length cs > max_batch_size"
  shows "verify_commands (CommandList cs) =
           Some (Denied (deny ''batch is too large. Only up to 20 commands''))"
  using assms by (simp add: verify_commands_def str_nat_limits max_batch_size_def)

lemma sanitize_exceptions_length:
  assumes "sanitize_exceptions argv = Inr (err, argv')"
  shows "length argv' = length argv"
proof -
  have "argv \<noteq> []"
    using assms by (auto simp: sanitize_exceptions_def)
  from sanitize_exceptions_total [OF this] assms show ?thesis
    by auto
qed

lemma is_hex_facts:
  assumes "is_hex h"
  shows "\<not> int_space h" and "h \<noteq> CHR ''+''" and "h \<noteq> CHR ''-''" and "h \<noteq> CHR ''_''"
    and "h \<noteq> CHR ''x''" and "h \<noteq> CHR ''X''" and "is_digit 16 h"
    and "digit_value h = Some (hex_value h)" and "hex_value h < 16"
  using assms
  by (auto simp: is_hex_def int_space_def digit_value_def is_digit_def hex_value_def ord_def)

lemma hex_pair_value:
  assumes "is_hex h1" and "is_hex h2"
  shows "Option.bind (py_int 16 [h1, h2]) py_chr =
           Some (char_of (16 * hex_value h1 + hex_value h2))"
proof -
  note f1 = is_hex_facts [OF assms(1)] and f2 = is_hex_facts [OF assms(2)]
  have v: "py_int 16 [h1, h2] = Some (int (16 * hex_value h1 + hex_value h2))"
    using f1 f2 by (simp add: py_int_def Let_def digits_value_def mult.commute)
  have "16 * hex_value h1 + hex_value h2 < 256"
    using f1(9) f2(9) by simp
  then show ?thesis
    by (simp add: v py_chr_def)
qed

lemma signature_length: "length signature = 41"
  by (simp add: signature_def)

lemma sanitize_argument_long:
  assumes "length (unescape_argument a) > max_argument_size"
  shows "sanitize_argument a = take 215 (unescape_argument a) @ signature"
    and "length (sanitize_argument a) = 256"
  using assms
  by (simp_all add: sanitize_argument_def snip_def slice_to_def signature_length
        max_argument_size_def Let_def)

lemma sanitize_exceptions_keeps:
  assumes "sanitize_exceptions argv = Inr (err, argv')"
    and "i < length argv"
    and "\<not> (i = 3 \<and> length argv = 4 \<and> lower (argv ! 0) = ''setrange'')"
  shows "argv' ! i = argv ! i"
proof -
  obtain a rest where argv: "argv = a # rest"
    using assms(1) by (cases argv) (auto simp: sanitize_exceptions_def)
  have "i \<noteq> 3 \<or> length argv \<noteq> 4 \<or> lower a \<noteq> ''setrange''"
    using assms(3) by (auto simp: argv)
  then show ?thesis
    using assms(1)
    unfolding argv sanitize_exceptions_def
    by (auto simp: Let_def split: if_splits option.splits
          simp del: list_update.simps nth_Cons_numeral)
qed

section \<open>The claims\<close>

text \<open>
  C5. For a \<open>SETRANGE\<close> command with exactly four arguments: when \<open>argv[2]\<close> parses as an
  integer above 256 the policy rejects the command with the bounds message and leaves the
  arguments alone; when it parses as an integer of at most 256 the policy reports no
  violation and \<open>argv[3]\<close> is cut to its first \<open>257 - offset\<close> characters; when it does
  not parse, the policy reports no violation and \<open>argv[3]\<close> becomes the empty string.
\<close>

theorem setrange_policy:
  assumes "length argv = 4" and "lower (argv ! 0) = ''setrange''"
  shows "(\<forall>offset. py_int 10 (argv ! 2) = Some offset \<and> offset > 256 \<longrightarrow>
            sanitize_exceptions argv =
              Inr (Some ''offset too big - only up to 256 bytes allowed'', argv))
       \<and> (\<forall>offset. py_int 10 (argv ! 2) = Some offset \<and> offset \<le> 256 \<longrightarrow>
            sanitize_exceptions argv =
              Inr (None, argv[3 := take (nat (257 - offset)) (argv ! 3)]))
       \<and> (py_int 10 (argv ! 2) = None \<longrightarrow>
            sanitize_exceptions argv = Inr (None, argv[3 := []]))"
  using assms by (rule sanitize_exceptions_setrange)

theorem setrange_policy_witness:
  "sanitize_exceptions [''SETRANGE'', ''k'', ''300'', ''0123456789''] =
     Inr (Some ''offset too big - only up to 256 bytes allowed'',
          [''SETRANGE'', ''k'', ''300'', ''0123456789''])
   \<and> sanitize_exceptions [''SETRANGE'', ''k'', ''250'', ''0123456789''] =
       Inr (None, [''SETRANGE'', ''k'', ''250'', ''0123456''])
   \<and> sanitize_exceptions [''SETRANGE'', ''k'', ''1x'', ''0123456789''] =
       Inr (None, [''SETRANGE'', ''k'', ''1x'', ''''])"
proof -
  have low: "lower ''SETRANGE'' = ''setrange''"
    by code_simp
  have p1: "py_int 10 ''300'' = Some 300" and p2: "py_int 10 ''250'' = Some 250"
    and p3: "py_int 10 ''1x'' = None"
    by code_simp+
  have c1: "sanitize_exceptions [''SETRANGE'', ''k'', ''300'', ''0123456789''] =
     Inr (Some ''offset too big - only up to 256 bytes allowed'',
          [''SETRANGE'', ''k'', ''300'', ''0123456789''])"
    using setrange_policy [of "[''SETRANGE'', ''k'', ''300'', ''0123456789'']"] low p1
    by simp
  have c2: "sanitize_exceptions [''SETRANGE'', ''k'', ''250'', ''0123456789''] =
       Inr (None, [''SETRANGE'', ''k'', ''250'', ''0123456''])"
    using setrange_policy [of "[''SETRANGE'', ''k'', ''250'', ''0123456789'']"] low p2
    by (simp add: numeral_eq_Suc)
  have c3: "sanitize_exceptions [''SETRANGE'', ''k'', ''1x'', ''0123456789''] =
       Inr (None, [''SETRANGE'', ''k'', ''1x'', ''''])"
    using setrange_policy [of "[''SETRANGE'', ''k'', ''1x'', ''0123456789'']"] low p3
    by simp
  from c1 c2 c3 show ?thesis by blast
qed

text \<open>
  C1. For every argument vector whose first argument lower-cases to \<open>quit\<close>, \<open>hello\<close>,
  \<open>reset\<close> or \<open>auth\<close>, whatever follows it, the policy returns the rejection message for
  that command; and when a command line yields that vector (after decoding and capping),
  the orchestrator appends one denial reply and the store client is not called: the list
  of calls that the recording client keeps is unchanged, and so is the store. (With more
  than 25 arguments the denial is the one for the argument count, which comes first.)
\<close>

theorem protocol_commands_denied:
  assumes "argv \<noteq> []"
    and "lower (hd argv) \<in> set [''quit'', ''hello'', ''reset'', ''auth'']"
  shows "sanitize_exceptions argv =
           Inr (Some (''the '' @ [squote] @ hd argv @ [squote] @ '' command is not''), argv)
       \<and> (get_tokens command = Inr tokens \<and> map sanitize_argument tokens = argv \<longrightarrow>
            execute_command (recording client) session (rep, (s, calls)) command =
              Inr (rep @ [deny (if length tokens > max_arguments
                                then ''too many arguments - only up to 25''
                                else ''the '' @ [squote] @ hd argv @ [squote]
                                       @ '' command is not'')],
                   (s, calls)))"
proof (intro conjI impI)
  show pol: "sanitize_exceptions argv =
           Inr (Some (''the '' @ [squote] @ hd argv @ [squote] @ '' command is not''), argv)"
    using assms by (rule sanitize_exceptions_denied)
  assume h: "get_tokens command = Inr tokens \<and> map sanitize_argument tokens = argv"
  then have tok: "get_tokens command = Inr tokens"
    and san: "map sanitize_argument tokens = argv"
    by simp_all
  have ne: "tokens \<noteq> []"
    using assms(1) san by auto
  show "execute_command (recording client) session (rep, (s, calls)) command =
          Inr (rep @ [deny (if length tokens > max_arguments
                            then ''too many arguments - only up to 25''
                            else ''the '' @ [squote] @ hd argv @ [squote]
                                   @ '' command is not'')],
               (s, calls))"
  proof (cases "length tokens > max_arguments")
    case True
    then show ?thesis
      using execute_command_too_many [OF tok True] by simp
  next
    case False
    then have le: "length tokens \<le> max_arguments" by simp
    show ?thesis
      using execute_command_policy [OF tok ne le pol [folded san]] False
      by (simp add: san)
  qed
qed


theorem protocol_commands_denied_witness:
  "sanitize_exceptions [''QUIT'', ''now''] =
     Inr (Some (''the '' @ [squote] @ ''QUIT'' @ [squote] @ '' command is not''),
          [''QUIT'', ''now''])
   \<and> execute_command
        (recording (\<lambda>s session argv. (Suc s, Inr (RStr ''OK'') :: string + unit resp)))
        () ([], (0 :: nat, [])) ''QUIT now'' =
       Inr ([deny (''the '' @ [squote] @ ''QUIT'' @ [squote] @ '' command is not'')],
            (0, []))"
proof -
  have ne: "[''QUIT'', ''now''] \<noteq> []"
    by simp
  have low: "lower (hd [''QUIT'', ''now'']) \<in> set [''quit'', ''hello'', ''reset'', ''auth'']"
    by code_simp
  have tok: "get_tokens ''QUIT now'' = Inr [''QUIT'', ''now'']"
    by code_simp
  have san: "map sanitize_argument [''QUIT'', ''now''] = [''QUIT'', ''now'']"
    by code_simp
  have le: "\<not> length [''QUIT'', ''now''] > max_arguments"
    by (simp add: max_arguments_def)
  show ?thesis
    using protocol_commands_denied [OF ne low, of "''QUIT now''" "[''QUIT'', ''now'']"
        "\<lambda>s session argv. (Suc s, Inr (RStr ''OK''))" "()" "[]" 0 "[]"]
      tok san le
    by simp
qed

text \<open>
  C2. For every batch of command lines, \<open>execute_commands\<close> returns a reply list and no
  exception leaves it. Every command adds at most one reply and the loop goes on with the
  remaining commands from there: a line that fails to parse adds an error reply with the
  lexer's message; more than 25 arguments, or a policy violation, add a denial; an
  exception of the store client adds an error reply with its message.
\<close>

theorem batch_never_raises:
  "(\<exists>r s'. execute_commands client session (rep, s) commands = Inr (rep @ r, s'))
   \<and> (\<exists>r s1. execute_command client session (rep, s) command = Inr (rep @ r, s1)
         \<and> length r \<le> 1
         \<and> execute_commands client session (rep, s) (command # commands) =
             execute_commands client session (rep @ r, s1) commands
         \<and> (\<forall>msg. get_tokens command = Inl msg \<longrightarrow>
               r = [reply (RStr msg) True] \<and> s1 = s)
         \<and> (\<forall>tokens. get_tokens command = Inr tokens \<and> length tokens > max_arguments \<longrightarrow>
               r = [deny ''too many arguments - only up to 25''] \<and> s1 = s)
         \<and> (\<forall>tokens err argv. get_tokens command = Inr tokens \<and> tokens \<noteq> []
               \<and> length tokens \<le> max_arguments
               \<and> sanitize_exceptions (map sanitize_argument tokens) = Inr (Some err, argv) \<longrightarrow>
               r = [deny err] \<and> s1 = s)
         \<and> (\<forall>tokens argv msg s'. get_tokens command = Inr tokens \<and> tokens \<noteq> []
               \<and> length tokens \<le> max_arguments
               \<and> sanitize_exceptions (map sanitize_argument tokens) = Inr (None, argv)
               \<and> client s session argv = (s', Inl msg) \<longrightarrow>
               r = [reply (RStr msg) True] \<and> s1 = s'))"
  (is "?total \<and> ?step")
proof (rule conjI)
  show ?total
    using execute_commands_total [of client session rep s commands] by blast
next
  obtain r s1 where step: "execute_command client session (rep, s) command = Inr (rep @ r, s1)"
    and len: "length r = (if get_tokens command = Inr [] then 0 else 1)"
    using execute_command_total [of client session rep s command] by blast
  have a: "length r \<le> 1"
    using len by simp
  have b: "execute_commands client session (rep, s) (command # commands) =
             execute_commands client session (rep @ r, s1) commands"
    using step by simp
  have c: "\<forall>msg. get_tokens command = Inl msg \<longrightarrow> r = [reply (RStr msg) True] \<and> s1 = s"
    using step execute_command_parse_error [of command _ client session rep s] by auto
  have d: "\<forall>tokens. get_tokens command = Inr tokens \<and> length tokens > max_arguments \<longrightarrow>
             r = [deny ''too many arguments - only up to 25''] \<and> s1 = s"
    using step execute_command_too_many [of command _ client session rep s] by auto
  have e: "\<forall>tokens err argv. get_tokens command = Inr tokens \<and> tokens \<noteq> []
             \<and> length tokens \<le> max_arguments
             \<and> sanitize_exceptions (map sanitize_argument tokens) = Inr (Some err, argv) \<longrightarrow>
             r = [deny err] \<and> s1 = s"
    using step execute_command_policy [of command _ _ _ client session rep s] by auto
  have f: "\<forall>tokens argv msg s'. get_tokens command = Inr tokens \<and> tokens \<noteq> []
             \<and> length tokens \<le> max_arguments
             \<and> sanitize_exceptions (map sanitize_argument tokens) = Inr (None, argv)
             \<and> client s session argv = (s', Inl msg) \<longrightarrow>
             r = [reply (RStr msg) True] \<and> s1 = s'"
  proof (intro allI impI)
    fix tokens argv msg s'
    assume h: "get_tokens command = Inr tokens \<and> tokens \<noteq> []
             \<and> length tokens \<le> max_arguments
             \<and> sanitize_exceptions (map sanitize_argument tokens) = Inr (None, argv)
             \<and> client s session argv = (s', Inl msg)"
    have "execute_command client session (rep, s) command =
            Inr (rep @ [reply (RStr msg) True], s')"
      using execute_command_dispatch [where client = client and s = s and session = session
          and rep = rep and command = command and tokens = tokens and argv = argv
          and s' = s' and r = "Inl msg"] h
      by simp
    with step show "r = [reply (RStr msg) True] \<and> s1 = s'"
      by simp
  qed
  from step a b c d e f
  show ?step
    by blast
qed

theorem batch_never_raises_witness:
  "get_tokens (dquote # ''abc'') = Inl ''No closing quotation''
   \<and> execute_command (\<lambda>s session argv. (Suc s, Inl ''ERR unknown command'' :: string + unit resp))
        () ([], 0 :: nat) (dquote # ''abc'') =
       Inr ([reply (RStr ''No closing quotation'') True], 0)
   \<and> get_tokens ''GET k'' = Inr [''GET'', ''k'']
   \<and> sanitize_exceptions (map sanitize_argument [''GET'', ''k'']) = Inr (None, [''GET'', ''k''])
   \<and> execute_command (\<lambda>s session argv. (Suc s, Inl ''ERR unknown command'' :: string + unit resp))
        () ([], 0 :: nat) ''GET k'' =
       Inr ([reply (RStr ''ERR unknown command'') True], 1)
   \<and> (\<exists>r s'. execute_commands
          (\<lambda>s session argv. (Suc s, Inl ''ERR unknown command'' :: string + unit resp))
          () ([], 0 :: nat) [dquote # ''abc'', ''GET k''] = Inr ([] @ r, s'))"
proof -
  let ?client = "\<lambda>(s :: nat) (session :: unit) (argv :: string list).
                   (Suc s, Inl ''ERR unknown command'' :: string + unit resp)"
  have t1: "get_tokens (dquote # ''abc'') = Inl ''No closing quotation''"
    by code_simp
  have t2: "get_tokens ''GET k'' = Inr [''GET'', ''k'']"
    by code_simp
  have p2: "sanitize_exceptions (map sanitize_argument [''GET'', ''k'']) =
              Inr (None, [''GET'', ''k''])"
    by code_simp
  have le: "length [''GET'', ''k''] \<le> max_arguments"
    by (simp add: max_arguments_def)
  have e1: "execute_command ?client () ([], 0) (dquote # ''abc'') =
              Inr ([reply (RStr ''No closing quotation'') True], 0)"
    using batch_never_raises [of ?client "()" "[]" 0 "[]" "dquote # ''abc''"] t1
    by auto
  have e2: "execute_command ?client () ([], 0) ''GET k'' =
              Inr ([reply (RStr ''ERR unknown command'') True], 1)"
    using batch_never_raises [of ?client "()" "[]" 0 "[]" "''GET k''"] t2 p2 le
    by auto
  have e3: "\<exists>r s'. execute_commands ?client () ([], 0) [dquote # ''abc'', ''GET k''] =
              Inr ([] @ r, s')"
    using batch_never_raises [of ?client "()" "[]" 0 "[dquote # ''abc'', ''GET k'']" "[]"]
    by blast
  from t1 t2 p2 e1 e2 e3 show ?thesis
    by blast
qed

text \<open>
  C9. A command line that tokenizes to no argument (an empty line and a line of white
  space do) adds no entry to the reply list; a line that tokenizes to at least one
  argument, or that fails to parse, adds exactly one. The replies keep the order of the
  commands: for a batch split anywhere into \<open>xs\<close> and \<open>ys\<close>, the replies to \<open>xs\<close> come
  first and are as many as the lines of \<open>xs\<close> that are not blank, and the replies to \<open>ys\<close>
  follow, as many as the lines of \<open>ys\<close> that are not blank.
\<close>

theorem blank_lines_give_no_reply:
  "(get_tokens command = Inr [] \<longrightarrow>
      execute_command client session (rep, s) command = Inr (rep, s))
   \<and> (get_tokens command \<noteq> Inr [] \<longrightarrow>
        (\<exists>r s'. execute_command client session (rep, s) command = Inr (rep @ [r], s')))
   \<and> (\<exists>r1 r2 s1 s2.
          execute_commands client session (rep, s) xs = Inr (rep @ r1, s1)
        \<and> execute_commands client session (rep @ r1, s1) ys = Inr (rep @ r1 @ r2, s2)
        \<and> execute_commands client session (rep, s) (xs @ ys) = Inr (rep @ r1 @ r2, s2)
        \<and> length r1 = length (filter (\<lambda>c. get_tokens c \<noteq> Inr []) xs)
        \<and> length r2 = length (filter (\<lambda>c. get_tokens c \<noteq> Inr []) ys))
   \<and> (set command \<subseteq> set whitespace \<longrightarrow> get_tokens command = Inr [])"
  (is "?blank \<and> ?one \<and> ?order \<and> ?white")
proof (intro conjI)
  show ?blank
    using execute_command_blank [of command client session rep s] by blast
  show ?one
  proof
    assume ne: "get_tokens command \<noteq> Inr []"
    obtain r s' where step: "execute_command client session (rep, s) command = Inr (rep @ r, s')"
      and len: "length r = (if get_tokens command = Inr [] then 0 else 1)"
      using execute_command_total [of client session rep s command] by blast
    from len ne have "length r = 1" by simp
    then obtain x where "r = [x]"
      by (cases r) auto
    with step show "\<exists>r s'. execute_command client session (rep, s) command = Inr (rep @ [r], s')"
      by blast
  qed
  show ?order
  proof -
    obtain r1 s1 where x: "execute_commands client session (rep, s) xs = Inr (rep @ r1, s1)"
      and lx: "length r1 = length (filter (\<lambda>c. get_tokens c \<noteq> Inr []) xs)"
      using execute_commands_total [of client session rep s xs] by blast
    obtain r2 s2 where y: "execute_commands client session (rep @ r1, s1) ys =
                             Inr ((rep @ r1) @ r2, s2)"
      and ly: "length r2 = length (filter (\<lambda>c. get_tokens c \<noteq> Inr []) ys)"
      using execute_commands_total [of client session "rep @ r1" s1 ys] by blast
    have xy: "execute_commands client session (rep, s) (xs @ ys) = Inr (rep @ r1 @ r2, s2)"
      using x y by (simp add: execute_commands_append)
    from x y xy lx ly show ?thesis
      by auto
  qed
  show ?white
    using read_tokens_blank [of command] by (simp add: get_tokens_def)
qed

theorem blank_lines_give_no_reply_witness:
  "get_tokens '' '' = Inr []
   \<and> get_tokens ''GET missing'' \<noteq> Inr []
   \<and> execute_command (\<lambda>s session argv. (Suc s, Inr (ROther ()) :: string + unit resp))
        () ([], 0 :: nat) '' '' = Inr ([], 0)
   \<and> (\<exists>r s'. execute_command (\<lambda>s session argv. (Suc s, Inr (ROther ()) :: string + unit resp))
        () ([], 0 :: nat) ''GET missing'' = Inr ([] @ [r], s'))
   \<and> (\<exists>r1 r2 s1 s2. execute_commands
          (\<lambda>s session argv. (Suc s, Inr (ROther ()) :: string + unit resp))
          () ([], 0 :: nat) ([''GET missing''] @ ['' '']) = Inr ([] @ r1 @ r2, s2)
        \<and> length r1 = 1 \<and> length r2 = 0)"
proof -
  let ?client = "\<lambda>(s :: nat) (session :: unit) (argv :: string list).
                   (Suc s, Inr (ROther ()) :: string + unit resp)"
  have t1: "get_tokens '' '' = Inr []"
    by code_simp
  have t2: "get_tokens ''GET missing'' \<noteq> Inr []"
    by code_simp
  have w: "set '' '' \<subseteq> set whitespace"
    by code_simp
  have e1: "execute_command ?client () ([], 0) '' '' = Inr ([], 0)"
    using blank_lines_give_no_reply [of "'' ''" ?client "()" "[]" 0 "[]" "[]"] w
    by simp
  have e2: "\<exists>r s'. execute_command ?client () ([], 0) ''GET missing'' = Inr ([] @ [r], s')"
    using blank_lines_give_no_reply [of "''GET missing''" ?client "()" "[]" 0 "[]" "[]"] t2
    by blast
  have e3: "\<exists>r1 r2 s1 s2. execute_commands ?client () ([], 0) ([''GET missing''] @ ['' '']) =
              Inr ([] @ r1 @ r2, s2) \<and> length r1 = 1 \<and> length r2 = 0"
    using blank_lines_give_no_reply [of "'' ''" ?client "()" "[]" 0 "[''GET missing'']" "['' '']"]
      t1 t2
    by auto
  from t1 t2 e1 e2 e3 show ?thesis
    by blast
qed

text \<open>
  C10. For every batch of more than 20 commands, \<open>verify_commands\<close> returns the denial
  "batch is too large. Only up to 20 commands allowed on the interwebz", and the request
  handler answers with that single denial without running any command: the store and the
  list of calls of the recording client are unchanged.
\<close>

theorem oversized_batch_rejected:
  assumes "length cs > 20"
  shows "verify_commands (CommandList cs) =
           Some (Denied (deny ''batch is too large. Only up to 20 commands''))
       \<and> handle_batch (recording client) session (s, calls) (CommandList cs) =
           Inr (Rejected (Denied (deny ''batch is too large. Only up to 20 commands'')),
                (s, calls))"
proof -
  have big: "length cs > max_batch_size"
    using assms by (simp add: max_batch_size_def)
  show ?thesis
    by (simp add: handle_batch_def verify_commands_too_large [OF big])
qed

theorem oversized_batch_rejected_witness:
  "length (replicate 21 ''PING'') > 20
   \<and> (verify_commands (CommandList (replicate 21 ''PING'')) :: unit verdict option) =
       Some (Denied (deny ''batch is too large. Only up to 20 commands''))
   \<and> handle_batch
        (recording (\<lambda>s session argv. (Suc s, Inr (RStr ''PONG'') :: string + unit resp)))
        () (0 :: nat, []) (CommandList (replicate 21 ''PING'')) =
       Inr (Rejected (Denied (deny ''batch is too large. Only up to 20 commands'')), (0, []))"
proof -
  have h: "length (replicate 21 ''PING'') > 20"
    by simp
  show ?thesis
    using h oversized_batch_rejected [OF h,
        of "\<lambda>s session argv. (Suc s, Inr (RStr ''PONG''))" "()" 0 "[]"]
    by simp
qed

text \<open>
  C3. The tokens come from \<open>shlex(command, True)\<close>, a lexer with the defaults of the
  standard library, not from the lexer \<open>lex\<close> that the lines above it configure. On the
  line \<open>SET k #v\<close> the \<open>#\<close> starts a comment and the tokens are \<open>SET\<close> and \<open>k\<close>; a quoted
  run keeps its quotes in the token; and a character outside letters, digits and the
  underscore splits a word and is a token of its own.
\<close>

theorem tokenizer_is_not_posix:
  "get_tokens ''SET k #v'' = Inr [''SET'', ''k'']
   \<and> get_tokens (''GET '' @ [dquote] @ ''a b'' @ [dquote]) =
       Inr [''GET'', [dquote] @ ''a b'' @ [dquote]]
   \<and> get_tokens ''SET foo-bar 1'' = Inr [''SET'', ''foo'', ''-'', ''bar'', ''1'']"
  by code_simp

text \<open>
  C7. The characters of the reverse escape table (newline, carriage return, tab,
  backspace, bell) are not printable, so \<open>escape_strings\<close> encodes each of them in the
  branch before the table lookup, as \<open>\x\<close> and two hexadecimal digits: the response that
  is one newline becomes the six characters \<open>"\x0a"\<close>, not the named escape.
\<close>

theorem reverse_table_never_used:
  "escape_strings (RStr [CHR 0x0A] :: unit resp) = RStr ([dquote, bslash] @ ''x0a'' @ [dquote])
   \<and> map escape_str [[CHR 0x0A], [CHR 0x0D], [CHR 0x09], [CHR 0x08], [CHR 0x07]] =
       [[dquote, bslash] @ ''x0a'' @ [dquote], [dquote, bslash] @ ''x0d'' @ [dquote],
        [dquote, bslash] @ ''x09'' @ [dquote], [dquote, bslash] @ ''x08'' @ [dquote],
        [dquote, bslash] @ ''x07'' @ [dquote]]"
  by code_simp

text \<open>
  C8, as stated, fails: \<open>CLIENT INFO x\<close> has three arguments, it is neither the \<open>INFO\<close>
  command nor a two-argument \<open>CLIENT INFO\<close>, and yet its response, a single backslash
  that the escaper would change, is returned as the store gave it.
\<close>

theorem client_info_extra_argument_counterexample:
  "get_tokens ''CLIENT INFO x'' = Inr [''CLIENT'', ''INFO'', ''x'']
   \<and> execute_command (\<lambda>s session argv. (s, Inr (RStr [bslash]) :: string + unit resp))
        () ([], ()) ''CLIENT INFO x'' = Inr ([reply (RStr [bslash]) False], ())
   \<and> escape_strings (RStr [bslash] :: unit resp) = RStr [dquote, bslash, bslash, dquote]"
  by code_simp

text \<open>
  C8, amended. The response of a command that was dispatched and did not raise is
  returned as the store gave it exactly when the first argument lower-cases to \<open>info\<close>,
  or the command has at least two arguments of which the first lower-cases to \<open>client\<close>
  and the second to \<open>info\<close>; every other such response goes through \<open>escape_strings\<close>.
  Either way it is wrapped in a reply whose error flag is false.
\<close>

theorem escaping_exemption:
  assumes "get_tokens command = Inr tokens" and "tokens \<noteq> []"
    and "length tokens \<le> max_arguments"
    and "sanitize_exceptions (map sanitize_argument tokens) = Inr (None, argv)"
    and "client s session argv = (s', Inr response)"
  shows "execute_command client session (rep, s) command =
           Inr (rep @ [reply (if lower (argv ! 0) = ''info''
                                  \<or> (length argv > 1 \<and> lower (argv ! 0) = ''client''
                                      \<and> lower (argv ! 1) = ''info'')
                               then response else escape_strings response) False], s')"
proof -
  have len: "length argv = length tokens"
    using sanitize_exceptions_length [OF assms(4)] by simp
  show ?thesis
    using execute_command_dispatch [where client = client and s = s and session = session
        and rep = rep, OF assms]
    by (simp add: info_command_def len)
qed

theorem escaping_exemption_witness:
  "execute_command (\<lambda>s session argv. (s, Inr (RStr [bslash]) :: string + unit resp))
        () ([], ()) ''info'' = Inr ([reply (RStr [bslash]) False], ())
   \<and> execute_command (\<lambda>s session argv. (s, Inr (RStr [bslash]) :: string + unit resp))
        () ([], ()) ''GET k'' = Inr ([reply (RStr [dquote, bslash, bslash, dquote]) False], ())"
proof -
  let ?client = "\<lambda>(s :: unit) (session :: unit) (argv :: string list).
                   (s, Inr (RStr [bslash]) :: string + unit resp)"
  have t1: "get_tokens ''info'' = Inr [''info'']"
    and t2: "get_tokens ''GET k'' = Inr [''GET'', ''k'']"
    by code_simp+
  have p1: "sanitize_exceptions (map sanitize_argument [''info'']) = Inr (None, [''info''])"
    and p2: "sanitize_exceptions (map sanitize_argument [''GET'', ''k'']) =
               Inr (None, [''GET'', ''k''])"
    by code_simp+
  have l1: "length [''info''] \<le> max_arguments" and l2: "length [''GET'', ''k''] \<le> max_arguments"
    by (simp_all add: max_arguments_def)
  have c: "?client () () argv = ((), Inr (RStr [bslash]))" for argv
    by simp
  have low: "lower ''info'' = ''info''" "lower ''GET'' \<noteq> ''info''" "lower ''GET'' \<noteq> ''client''"
    by code_simp+
  have esc: "escape_strings (RStr [bslash] :: unit resp) = RStr [dquote, bslash, bslash, dquote]"
    by code_simp
  have e1: "execute_command ?client () ([], ()) ''info'' = Inr ([reply (RStr [bslash]) False], ())"
    using escaping_exemption [where client = ?client and s = "()" and session = "()"
        and rep = "[]", OF t1 _ l1 p1 c] low
    by simp
  have e2: "execute_command ?client () ([], ()) ''GET k'' =
              Inr ([reply (RStr [dquote, bslash, bslash, dquote]) False], ())"
    using escaping_exemption [where client = ?client and s = "()" and session = "()"
        and rep = "[]", OF t2 _ l2 p2 c] low esc
    by simp
  from e1 e2 show ?thesis
    by blast
qed

text \<open>
  C6, as stated, fails on "a backslash followed by any other character decodes to that
  character": in the token \<open>"\xzz"\<close> the backslash is followed by an \<open>x\<close> that no two
  hexadecimal digits follow, and the decoder keeps the backslash: the result is the four
  characters \<open>\xzz\<close>, not \<open>xzz\<close>. (With one \<open>z\<close> only, the backslash does go.)
\<close>

theorem bad_hex_keeps_backslash_counterexample:
  "unescape_argument ([dquote, bslash] @ ''xzz'' @ [dquote]) = [bslash] @ ''xzz''
   \<and> unescape_argument ([dquote, bslash] @ ''xzz'' @ [dquote]) \<noteq> ''xzz''
   \<and> unescape_argument ([dquote, bslash] @ ''xz'' @ [dquote]) = ''xz''"
  by code_simp

text \<open>
  C6, amended. For every token that begins with a double quote and has at least two
  characters, \<open>unescape_argument\<close> decodes the interior (the token without its first and
  last character) from left to right as \<open>decode_double_quoted\<close> says, and returns the
  interior unmodified when that meets a trailing unmatched backslash:
  a character other than a backslash stands for itself; a backslash, an \<open>x\<close> and two
  hexadecimal digits give the character with that value, and so do any two characters
  that \<open>int(_, 16)\<close> and \<open>chr\<close> accept; when they refuse the two characters, the
  backslash is kept and the decoding resumes at the \<open>x\<close>; a backslash and a letter of
  the escape table give the table's character; a backslash and any other character (an
  \<open>x\<close> with fewer than two characters after it included) give that character.
\<close>

theorem double_quoted_decoding:
  "unescape_argument (dquote # val @ [e]) =
     (case decode_double_quoted val of None \<Rightarrow> val | Some r \<Rightarrow> r)
   \<and> decode_double_quoted [] = Some []
   \<and> (c \<noteq> bslash \<longrightarrow>
        decode_double_quoted (c # rest) = map_option ((#) c) (decode_double_quoted rest))
   \<and> decode_double_quoted [bslash] = None
   \<and> (is_hex h1 \<and> is_hex h2 \<longrightarrow>
        decode_double_quoted (bslash # CHR ''x'' # h1 # h2 # rest) =
          map_option ((#) (char_of (16 * hex_value h1 + hex_value h2)))
            (decode_double_quoted rest))
   \<and> (Option.bind (py_int 16 [h1, h2]) py_chr = Some b \<longrightarrow>
        decode_double_quoted (bslash # CHR ''x'' # h1 # h2 # rest) =
          map_option ((#) b) (decode_double_quoted rest))
   \<and> (Option.bind (py_int 16 [h1, h2]) py_chr = None \<longrightarrow>
        decode_double_quoted (bslash # CHR ''x'' # h1 # h2 # rest) =
          map_option ((#) bslash) (decode_double_quoted (CHR ''x'' # h1 # h2 # rest)))
   \<and> (map_of escapes d = Some v \<longrightarrow>
        decode_double_quoted (bslash # d # rest) =
          map_option ((#) v) (decode_double_quoted rest))
   \<and> (map_of escapes d = None \<and> (d \<noteq> CHR ''x'' \<or> length rest < 2) \<longrightarrow>
        decode_double_quoted (bslash # d # rest) =
          map_option ((#) d) (decode_double_quoted rest))"
  (is "?refine \<and> ?empty \<and> ?plain \<and> ?trailing \<and> ?hex \<and> ?accepted \<and> ?refused
       \<and> ?named \<and> ?other")
proof (intro conjI)
  show ?refine
    by (rule unescape_argument_decode)
  show ?empty
    by simp
  show ?plain
    by simp
  show ?trailing
    by simp
  show ?accepted
    by simp
  show ?refused
    by simp
  show ?hex
    using hex_pair_value [of h1 h2] by simp
  show ?named
  proof
    assume m: "map_of escapes d = Some v"
    then have "d \<noteq> CHR ''x''"
      by (auto simp: escapes_def split: if_splits)
    with m show "decode_double_quoted (bslash # d # rest) =
                   map_option ((#) v) (decode_double_quoted rest)"
      by (simp add: dict_get_def)
  qed
  show ?other
    by (auto simp: dict_get_def)
qed

theorem double_quoted_decoding_witness:
  "is_hex CHR ''4'' \<and> is_hex CHR ''1''
   \<and> unescape_argument ([dquote, bslash] @ ''x41'' @ [dquote]) = ''A''
   \<and> Option.bind (py_int 16 ''zz'') py_chr = None
   \<and> unescape_argument ([dquote, bslash] @ ''xzz'' @ [dquote]) = [bslash] @ ''xzz''
   \<and> map_of escapes CHR ''n'' = Some CHR 0x0A
   \<and> unescape_argument ([dquote, bslash] @ ''n'' @ [dquote]) = [CHR 0x0A]
   \<and> map_of escapes CHR ''q'' = None
   \<and> unescape_argument ([dquote, bslash] @ ''q'' @ [dquote]) = ''q''
   \<and> unescape_argument ([dquote] @ ''a'' @ [bslash] @ [dquote]) = ''a'' @ [bslash]"
proof -
  have h: "is_hex CHR ''4''" "is_hex CHR ''1''"
    by (simp_all add: is_hex_def)
  have z: "Option.bind (py_int 16 ''zz'') py_chr = None"
    by code_simp
  have n: "map_of escapes CHR ''n'' = Some CHR 0x0A"
    and q: "map_of escapes CHR ''q'' = None"
    by (simp_all add: escapes_def)
  have v: "char_of (16 * hex_value CHR ''4'' + hex_value CHR ''1'') = CHR ''A''"
    by code_simp
  have nb: "CHR ''x'' \<noteq> bslash" "CHR ''z'' \<noteq> bslash" "CHR ''a'' \<noteq> bslash"
    by (simp_all add: bslash_def)
  have e1: "unescape_argument ([dquote, bslash] @ ''x41'' @ [dquote]) = ''A''"
    using double_quoted_decoding [where val = "bslash # ''x41''" and e = dquote
        and ?h1.0 = "CHR ''4''" and ?h2.0 = "CHR ''1''" and rest = "[]"]
      h v
    by simp
  have z1: "decode_double_quoted ''xzz'' = Some ''xzz''"
    using double_quoted_decoding [where c = "CHR ''x''" and rest = "''zz''"]
      double_quoted_decoding [where c = "CHR ''z''" and rest = "''z''"]
      double_quoted_decoding [where c = "CHR ''z''" and rest = "[]"]
      nb
    by simp
  have e2: "unescape_argument ([dquote, bslash] @ ''xzz'' @ [dquote]) = [bslash] @ ''xzz''"
    using double_quoted_decoding [where val = "bslash # ''xzz''" and e = dquote
        and ?h1.0 = "CHR ''z''" and ?h2.0 = "CHR ''z''" and rest = "[]"]
      z z1
    by simp
  have e3: "unescape_argument ([dquote, bslash] @ ''n'' @ [dquote]) = [CHR 0x0A]"
    using double_quoted_decoding [where val = "bslash # ''n''" and e = dquote
        and d = "CHR ''n''" and v = "CHR 0x0A" and rest = "[]"] n
    by simp
  have e4: "unescape_argument ([dquote, bslash] @ ''q'' @ [dquote]) = ''q''"
    using double_quoted_decoding [where val = "bslash # ''q''" and e = dquote
        and d = "CHR ''q''" and rest = "[]"] q
    by simp
  have e5: "unescape_argument ([dquote] @ ''a'' @ [bslash] @ [dquote]) = ''a'' @ [bslash]"
    using double_quoted_decoding [where val = "''a'' @ [bslash]" and e = dquote
        and c = "CHR ''a''" and rest = "[bslash]"] nb
    by simp
  from h z n q e1 e2 e3 e4 e5 show ?thesis
    by blast
qed

text \<open>
  C4, as stated, fails for the store: in \<open>SETRANGE k 250 "aaa..."\<close> with 260 letters the
  decoded value is longer than 256 characters and is capped to 256, but the policy then
  cuts the value of a \<open>SETRANGE\<close> to \<open>257 - 250\<close> characters, and the store client
  receives seven letters, without the marker.
\<close>

theorem setrange_shortens_snipped_value_counterexample:
  "length (unescape_argument ([dquote] @ replicate 260 CHR ''a'' @ [dquote])) = 260
   \<and> execute_command (recording (\<lambda>s session argv. (s, Inr (ROther ()) :: string + unit resp)))
        () ([], ((), [])) (''SETRANGE k 250 '' @ [dquote] @ replicate 260 CHR ''a'' @ [dquote]) =
       Inr ([reply (ROther ()) False], ((), [[''SETRANGE'', ''k'', ''250'', ''aaaaaaa'']]))"
  by code_simp

text \<open>
  C4, amended. For every argument whose decoded length exceeds 256, the argument handed
  to the policy (the entry of \<open>map sanitize_argument tokens\<close>) is the first 215 decoded
  characters followed by the marker, 256 characters in all; and when the command is
  dispatched, the store client receives that same argument, unless it is the value
  (index 3) of a four-argument \<open>SETRANGE\<close>, which the policy may shorten or clear.
\<close>

theorem long_argument_snipped:
  "(i < length tokens \<and> length (unescape_argument (tokens ! i)) > max_argument_size \<longrightarrow>
      map sanitize_argument tokens ! i = take 215 (unescape_argument (tokens ! i)) @ signature
      \<and> length (map sanitize_argument tokens ! i) = 256)
   \<and> (get_tokens command = Inr tokens \<and> i < length tokens
        \<and> length (unescape_argument (tokens ! i)) > max_argument_size
        \<and> execute_command (recording client) session (rep, (s, calls)) command =
            Inr (rep', (s', calls'))
        \<and> calls' \<noteq> calls
        \<and> (i \<noteq> 3 \<or> length tokens \<noteq> 4
            \<or> lower (sanitize_argument (tokens ! 0)) \<noteq> ''setrange'') \<longrightarrow>
        (\<exists>argv. calls' = calls @ [argv] \<and> length argv = length tokens
           \<and> argv ! i = take 215 (unescape_argument (tokens ! i)) @ signature
           \<and> length (argv ! i) = 256))"
  (is "?policy \<and> ?store")
proof (rule conjI)
  show ?policy
    using sanitize_argument_long [of "tokens ! i"] by simp
  show ?store
  proof
    assume h: "get_tokens command = Inr tokens \<and> i < length tokens
        \<and> length (unescape_argument (tokens ! i)) > max_argument_size
        \<and> execute_command (recording client) session (rep, (s, calls)) command =
            Inr (rep', (s', calls'))
        \<and> calls' \<noteq> calls
        \<and> (i \<noteq> 3 \<or> length tokens \<noteq> 4
            \<or> lower (sanitize_argument (tokens ! 0)) \<noteq> ''setrange'')"
    then have tok: "get_tokens command = Inr tokens" and i: "i < length tokens"
      and long: "length (unescape_argument (tokens ! i)) > max_argument_size"
      and run: "execute_command (recording client) session (rep, (s, calls)) command =
                  Inr (rep', (s', calls'))"
      and changed: "calls' \<noteq> calls"
      and other: "i \<noteq> 3 \<or> length tokens \<noteq> 4
                    \<or> lower (sanitize_argument (tokens ! 0)) \<noteq> ''setrange''"
      by simp_all
    let ?args = "map sanitize_argument tokens"
    have ne: "tokens \<noteq> []"
      using i by auto
    have le: "length tokens \<le> max_arguments"
    proof (rule ccontr)
      assume "\<not> length tokens \<le> max_arguments"
      then have "length tokens > max_arguments" by simp
      from execute_command_too_many [OF tok this, of "recording client" session rep "(s, calls)"]
        run changed
      show False by simp
    qed
    from ne have "?args \<noteq> []" by simp
    from sanitize_exceptions_total [OF this]
    obtain err argv where san: "sanitize_exceptions ?args = Inr (err, argv)"
      and len: "length argv = length ?args"
      by blast
    have none: "err = None"
    proof (cases err)
      case (Some m)
      from execute_command_policy [OF tok ne le san [unfolded Some],
          of "recording client" session rep "(s, calls)"] run changed
      show ?thesis by simp
    qed simp
    have "execute_command (recording client) session (rep, (s, calls)) command =
            Inr (rep @ [case snd (client s session argv) of
                          Inl e \<Rightarrow> reply (RStr e) True
                        | Inr response \<Rightarrow>
                            reply (if info_command (length tokens) argv then response
                                   else escape_strings response) False],
                 (fst (client s session argv), calls @ [argv]))"
      by (rule execute_command_dispatch [where client = "recording client" and s = "(s, calls)"
            and session = session and rep = rep, OF tok ne le san [unfolded none]])
         (rule recording_apply)
    with run have c: "calls' = calls @ [argv]"
      by simp
    have "\<not> (i = 3 \<and> length ?args = 4 \<and> lower (?args ! 0) = ''setrange'')"
      using other ne by (auto simp: nth_map)
    from sanitize_exceptions_keeps [OF san _ this] i
    have "argv ! i = ?args ! i"
      by simp
    then have a: "argv ! i = sanitize_argument (tokens ! i)"
      using i by simp
    from c len a sanitize_argument_long [OF long]
    show "\<exists>argv. calls' = calls @ [argv] \<and> length argv = length tokens
           \<and> argv ! i = take 215 (unescape_argument (tokens ! i)) @ signature
           \<and> length (argv ! i) = 256"
      by simp
  qed
qed

theorem long_argument_snipped_witness:
  "get_tokens (''SET k '' @ [dquote] @ replicate 260 CHR ''a'' @ [dquote]) =
     Inr [''SET'', ''k'', [dquote] @ replicate 260 CHR ''a'' @ [dquote]]
   \<and> length (unescape_argument ([dquote] @ replicate 260 CHR ''a'' @ [dquote])) > max_argument_size
   \<and> execute_command (recording (\<lambda>s session argv. (s, Inr (ROther ()) :: string + unit resp)))
        () ([], ((), [])) (''SET k '' @ [dquote] @ replicate 260 CHR ''a'' @ [dquote]) =
       Inr ([reply (ROther ()) False],
            ((), [[''SET'', ''k'', replicate 215 CHR ''a'' @ signature]]))
   \<and> (\<exists>argv. [[''SET'', ''k'', replicate 215 CHR ''a'' @ signature]] = [] @ [argv]
         \<and> length argv = length [''SET'', ''k'', [dquote] @ replicate 260 CHR ''a'' @ [dquote]]
         \<and> argv ! 2 =
             take 215 (unescape_argument
               ([''SET'', ''k'', [dquote] @ replicate 260 CHR ''a'' @ [dquote]] ! 2)) @ signature
         \<and> length (argv ! 2) = 256)"
proof -
  let ?long = "[dquote] @ replicate 260 CHR ''a'' @ [dquote]"
  let ?cmd = "''SET k '' @ ?long"
  let ?tokens = "[''SET'', ''k'', ?long]"
  let ?client = "\<lambda>(s :: unit) (session :: unit) (argv :: string list).
                   (s, Inr (ROther ()) :: string + unit resp)"
  let ?calls = "[[''SET'', ''k'', replicate 215 CHR ''a'' @ signature]]"
  have t: "get_tokens ?cmd = Inr ?tokens"
    by code_simp
  have l0: "length (unescape_argument ?long) > max_argument_size"
    by code_simp
  have r: "execute_command (recording ?client) () ([], ((), [])) ?cmd =
             Inr ([reply (ROther ()) False], ((), ?calls))"
    by code_simp
  have i: "(2 :: nat) < length [x, y, z]" and n: "[x, y, z] ! 2 = z" for x y z :: string
    by simp_all
  have l: "length (unescape_argument (?tokens ! 2)) > max_argument_size"
    by (simp only: n l0)
  have c: "[u] \<noteq> []" for u :: "string list"
    by simp
  have o: "(2 :: nat) \<noteq> 3 \<or> P \<or> Q" for P Q
    by simp
  have e: "\<exists>argv. ?calls = [] @ [argv] \<and> length argv = length ?tokens
          \<and> argv ! 2 = take 215 (unescape_argument (?tokens ! 2)) @ signature
          \<and> length (argv ! 2) = 256"
    by (rule mp [OF conjunct2 [OF long_argument_snipped [where i = 2 and tokens = ?tokens
              and command = ?cmd and client = ?client and session = "()" and rep = "[]"
              and s = "()" and calls = "[]" and calls' = ?calls
              and rep' = "[reply (ROther ()) False]" and s' = "()"]]])
      (intro conjI t i l r c o)
  from t l0 r e show ?thesis
    by (intro conjI)
qed

end
